theory Spec2Isabelle
  imports Main
begin

section \<open>Python values used by the bot\<close>

text \<open>
  The bot tests optional strings and optional numbers by truthiness
  (\<^verbatim>\<open>if file_name\<close>, \<^verbatim>\<open>a or b\<close>, \<^verbatim>\<open>if reported_time\<close>): \<^verbatim>\<open>None\<close>, the empty
  string and the number zero are false.
\<close>

definition truthy_str :: "string option \<Rightarrow> bool" where
  "truthy_str v = (case v of None \<Rightarrow> False | Some s \<Rightarrow> s \<noteq> [])"

definition truthy_int :: "int option \<Rightarrow> bool" where
  "truthy_int v = (case v of None \<Rightarrow> False | Some n \<Rightarrow> n \<noteq> 0)"

definition py_or :: "string option \<Rightarrow> string option \<Rightarrow> string option" where
  "py_or a b = (if truthy_str a then a else b)"

subsection \<open>Strings\<close>

text \<open>
  \<^verbatim>\<open>str.lower\<close> on the code points below 256: the ASCII capitals and the Latin-1
  capitals (192 to 222 without the multiplication sign 215) move up by 32.
\<close>

definition lower_char :: "char \<Rightarrow> char" where
  "lower_char c =
     (let n = (of_char c :: nat)
      in if (65 \<le> n \<and> n \<le> 90) \<or> (192 \<le> n \<and> n \<le> 222 \<and> n \<noteq> 215)
         then char_of (n + 32) else c)"

definition lower :: "string \<Rightarrow> string" where
  "lower s = map lower_char s"

definition startswith :: "string \<Rightarrow> string \<Rightarrow> bool" where
  "startswith s p = (take (length p) s = p)"

definition endswith :: "string \<Rightarrow> string \<Rightarrow> bool" where
  "endswith s e = (length e \<le> length s \<and> drop (length s - length e) s = e)"

text \<open>\<^verbatim>\<open>sep in s\<close>: some position of \<open>s\<close> starts with \<open>sep\<close>.\<close>

fun contains :: "string \<Rightarrow> string \<Rightarrow> bool" where
  "contains sep [] = (sep = [])"
| "contains sep (c # cs) = (startswith (c # cs) sep \<or> contains sep cs)"

text \<open>
  \<^verbatim>\<open>s.split(sep)\<close>: the scan goes left to right and cuts at every occurrence it
  meets, skipping the separator. Python raises \<^verbatim>\<open>ValueError\<close> on an empty separator;
  the bot only splits on the literals \<^verbatim>\<open>"_@"\<close> and \<^verbatim>\<open>"."\<close>, and the model returns the
  string uncut there.
\<close>

function split :: "string \<Rightarrow> string \<Rightarrow> string list" where
  "split sep s =
     (if sep = [] then [s]
      else if startswith s sep then [] # split sep (drop (length sep) s)
      else (case s of
              [] \<Rightarrow> [[]]
            | c # cs \<Rightarrow> (case split sep cs of
                          [] \<Rightarrow> [[c]]
                        | p # ps \<Rightarrow> (c # p) # ps)))"
  by pat_completeness auto
termination
proof (relation "measure (\<lambda>(sep, s). length s)")
  fix sep s :: string
  assume "sep \<noteq> []" and "startswith s sep"
  then have "s \<noteq> []"
    by (auto simp: startswith_def)
  with \<open>sep \<noteq> []\<close> show "((sep, drop (length sep) s), (sep, s)) \<in> measure (\<lambda>(sep, s). length s)"
    by simp
qed auto

declare split.simps [simp del]

text \<open>\<^verbatim>\<open>str(n)\<close> for an integer: decimal digits, a minus sign for a negative one.\<close>

fun str_nat :: "nat \<Rightarrow> string" where
  "str_nat n =
     (if n < 10 then [char_of (48 + n)]
      else str_nat (n div 10) @ [char_of (48 + n mod 10)])"

declare str_nat.simps [simp del]

definition str_int :: "int \<Rightarrow> string" where
  "str_int i = (if i < 0 then CHR ''-'' # str_nat (nat (- i)) else str_nat (nat i))"

section \<open>Helper functions\<close>

text \<open>
  \<^verbatim>\<open>format_time(seconds)\<close>: \<^verbatim>\<open>None\<close> gives \<^verbatim>\<open>"unknown"\<close>, a value that is not
  positive gives \<^verbatim>\<open>"0m"\<close>, otherwise hours and minutes by two \<^verbatim>\<open>divmod\<close>s.
\<close>

definition format_time :: "int option \<Rightarrow> string" where
  "format_time seconds =
     (case seconds of
        None \<Rightarrow> ''unknown''
      | Some s \<Rightarrow>
          if s \<le> 0 then ''0m''
          else
            let hours = s div 3600;
                remainder = s mod 3600;
                minutes = remainder div 60
            in if hours > 0 then str_int hours @ ''h '' @ str_int minutes @ ''m''
               else str_int minutes @ ''m'')"

text \<open>
  \<^verbatim>\<open>parse_username_from_filename\<close>. The loop over the known extensions returns at the
  first one the lower-cased suffix ends with, cutting that many characters off the
  suffix itself.
\<close>

definition known_extensions :: "string list" where
  "known_extensions = [''.gcode.3mf'', ''.bgcode'', ''.gcode'', ''.gco'', ''.3mf'']"

fun strip_extension :: "string list \<Rightarrow> string \<Rightarrow> string" where
  "strip_extension [] after_at = after_at"
| "strip_extension (ext # exts) after_at =
     (if endswith (lower after_at) ext
      then take (length after_at - length ext) after_at
      else strip_extension exts after_at)"

definition parse_username_from_filename :: "string \<Rightarrow> string option" where
  "parse_username_from_filename file_name =
     (if \<not> contains ''_@'' file_name then None
      else
        let after_at = last (split ''_@'' file_name)
        in Some (strip_extension known_extensions after_at))"


section \<open>The status dictionary and the two backends\<close>

text \<open>
  Exceptions the \<^verbatim>\<open>try\<close> blocks can see, as far as the handlers tell them apart.
  In \<^verbatim>\<open>requests\<close>, \<^verbatim>\<open>ConnectTimeout\<close> is a subclass of both \<^verbatim>\<open>ConnectionError\<close> and
  \<^verbatim>\<open>Timeout\<close>, \<^verbatim>\<open>ReadTimeout\<close> of \<^verbatim>\<open>Timeout\<close> only; every other constructor stands
  for a subclass of \<^verbatim>\<open>Exception\<close> outside both.
\<close>

datatype exn =
    ConnectionError
  | ConnectTimeout
  | ReadTimeout
  | HTTPError
  | JSONDecodeError
  | AttributeError
  | OtherException

definition is_ConnectionError :: "exn \<Rightarrow> bool" where
  "is_ConnectionError e = (e = ConnectionError \<or> e = ConnectTimeout)"

definition is_Timeout :: "exn \<Rightarrow> bool" where
  "is_Timeout e = (e = ConnectTimeout \<or> e = ReadTimeout)"

text \<open>
  The job document of PrusaLink (\<^verbatim>\<open>/api/v1/job\<close>) as far as the bot reads it: the
  \<^verbatim>\<open>file\<close> object (\<open>job_file\<close>) with its \<^verbatim>\<open>display_name\<close> and \<^verbatim>\<open>name\<close>. \<open>None\<close> is a missing key
  (or a null).
\<close>

record file_json =
  display_name :: "string option"
  name :: "string option"

record job_json =
  job_file :: "file_json option"

text \<open>
  The status dictionary both backends return. A key that is absent and a key that
  holds \<^verbatim>\<open>None\<close> read the same through \<^verbatim>\<open>status.get\<close>, so each optional key is an
  option. The keys \<^verbatim>\<open>progress\<close> and \<^verbatim>\<open>layers\<close> are read by the status embed only and
  are left out.
\<close>

record status =
  state :: string
  raw_bambu_state :: "string option"
  time_remaining :: "int option"
  time_printing :: "int option"
  job_data :: "job_json option"

definition state_only :: "string \<Rightarrow> status" where
  "state_only s =
     \<lparr>state = s, raw_bambu_state = None, time_remaining = None,
      time_printing = None, job_data = None\<rparr>"

subsection \<open>PrusaLink (pull)\<close>

text \<open>
  The body of \<^verbatim>\<open>/api/v1/status\<close> as far as it is read:
  \<^verbatim>\<open>status_data.get("printer", {}).get("state", "UNKNOWN")\<close> and the two times of
  \<^verbatim>\<open>status_data.get("job", {})\<close>, each \<open>None\<close> when the key (or the object around it)
  is missing. The state is taken to be a string and the times whole numbers of
  seconds, as PrusaLink sends them.
\<close>

record status_data =
  printer_state :: "string option"
  job_time_remaining :: "int option"
  job_time_printing :: "int option"

text \<open>
  \<^verbatim>\<open>get_printer_status\<close>. Its two arguments are what the two requests do when they
  are made: \<open>Inl\<close> the exception raised by \<^verbatim>\<open>requests.get\<close>, \<^verbatim>\<open>raise_for_status\<close>,
  \<^verbatim>\<open>json()\<close> or a \<^verbatim>\<open>.get\<close> on a body that is no object, \<open>Inr\<close> the decoded body. The
  result is \<open>Inl\<close> when an exception leaves the function.
\<close>

definition get_printer_status :: "exn + status_data \<Rightarrow> exn + job_json \<Rightarrow> exn + status" where
  "get_printer_status status_response job_response =
     (case
        (case status_response of
           Inl e \<Rightarrow> Inl e
         | Inr status_data \<Rightarrow>
             let printer_state =
                   (case printer_state status_data of None \<Rightarrow> ''UNKNOWN'' | Some s \<Rightarrow> s);
                 result =
                   \<lparr>state = printer_state, raw_bambu_state = None,
                    time_remaining = job_time_remaining status_data,
                    time_printing = job_time_printing status_data,
                    job_data = None\<rparr>
             in if printer_state = ''PRINTING''
                then (case job_response of
                        Inr job \<Rightarrow> Inr (result\<lparr>job_data := Some job\<rparr>)
                      | Inl _ \<Rightarrow> Inr (result\<lparr>job_data := None\<rparr>))
                else Inr result)
      of
        Inr result \<Rightarrow> Inr result
      | Inl e \<Rightarrow>
          if is_ConnectionError e then Inr (state_only ''OFFLINE'')
          else if is_Timeout e then Inr (state_only ''OFFLINE'')
          else Inr (state_only ''UNKNOWN''))"

subsection \<open>Bambu Lab (push)\<close>

text \<open>
  What the getters of a connected client return on one read of its cache:
  \<^verbatim>\<open>get_state()\<close> as the text of \<^verbatim>\<open>str(state)\<close> (\<open>None\<close> when the state is falsy),
  \<^verbatim>\<open>get_time()\<close> in minutes, \<^verbatim>\<open>subtask_name()\<close> and \<^verbatim>\<open>get_file_name()\<close>. The
  percentage and the layer numbers only feed the keys left out of \<open>status\<close>.
\<close>

record bambu_reading =
  get_state :: "string option"
  get_time :: "int option"
  subtask_name :: "string option"
  client_file_name :: "string option"

definition state_map :: "(string \<times> string) list" where
  "state_map =
     [(''IDLE'', ''IDLE''),
      (''RUNNING'', ''PRINTING''),
      (''PREPARE'', ''PRINTING''),
      (''PAUSE'', ''PAUSED''),
      (''FINISH'', ''IDLE''),
      (''FAILED'', ''ERROR''),
      (''UNKNOWN'', ''UNKNOWN'')]"

text \<open>
  \<^verbatim>\<open>get_bambu_status\<close>: \<open>bambu_connections\<close> maps a printer name to what reading its
  client gives now, \<open>Inl\<close> when a getter raises.
\<close>

definition get_bambu_status ::
  "(string \<rightharpoonup> exn + bambu_reading) \<Rightarrow> string \<Rightarrow> exn + status" where
  "get_bambu_status bambu_connections printer_name =
     (case bambu_connections printer_name of
        None \<Rightarrow> Inr (state_only ''OFFLINE'')
      | Some client \<Rightarrow>
          (case client of
             Inl e \<Rightarrow> Inr (state_only ''UNKNOWN'')
           | Inr r \<Rightarrow>
               let file_name = py_or (subtask_name r) (client_file_name r);
                   state_str =
                     (case get_state r of
                        None \<Rightarrow> ''UNKNOWN''
                      | Some s \<Rightarrow> last (split ''.'' s));
                   normalized_state =
                     (case map_of state_map state_str of
                        None \<Rightarrow> state_str
                      | Some n \<Rightarrow> n);
                   raw_state = state_str;
                   time_remaining_sec = map_option (\<lambda>m. m * 60) (get_time r);
                   result =
                     \<lparr>state = normalized_state, raw_bambu_state = Some raw_state,
                      time_remaining = time_remaining_sec, time_printing = None,
                      job_data = None\<rparr>
               in if normalized_state = ''PRINTING'' \<and> truthy_str file_name
                  then Inr (result\<lparr>job_data :=
                         Some \<lparr>job_file = Some \<lparr>display_name = file_name, name = None\<rparr>\<rparr>\<rparr>)
                  else Inr result))"

subsection \<open>Unified polling\<close>

text \<open>
  A configured printer: its \<^verbatim>\<open>name\<close> and its \<^verbatim>\<open>type\<close> (\<open>None\<close> when the key is
  missing, read as \<^verbatim>\<open>"prusa"\<close>). The address and the credentials only build the
  request, whose outcome \<open>poll_printer\<close> takes as \<open>backend\<close>.
\<close>

record printer =
  printer_name :: string
  printer_type :: "string option"

record backend =
  status_response :: "exn + status_data"
  job_response :: "exn + job_json"
  bambu_connections :: "string \<rightharpoonup> exn + bambu_reading"

definition poll_printer :: "backend \<Rightarrow> printer \<Rightarrow> exn + status" where
  "poll_printer b p =
     (let ptype = (case printer_type p of None \<Rightarrow> ''prusa'' | Some t \<Rightarrow> t)
      in if ptype = ''bambu''
         then get_bambu_status (bambu_connections b) (printer_name p)
         else get_printer_status (status_response b) (job_response b))"

text \<open>
  \<^verbatim>\<open>get_file_name\<close>: with job data, the display name, else the name, else the
  placeholder; without job data the placeholder.
\<close>

definition get_file_name :: "status \<Rightarrow> string" where
  "get_file_name st =
     (case job_data st of
        Some job \<Rightarrow>
          (let f = (case job_file job of None \<Rightarrow> \<lparr>display_name = None, name = None\<rparr> | Some f \<Rightarrow> f)
           in case py_or (py_or (display_name f) (name f)) (Some ''Unknown file'') of
                Some s \<Rightarrow> s
              | None \<Rightarrow> ''Unknown file'')
      | None \<Rightarrow> ''Unknown file'')"


section \<open>The polling cycle\<close>

text \<open>
  \<^verbatim>\<open>datetime.now()\<close> is an instant counted in microseconds, the resolution of
  \<^verbatim>\<open>datetime\<close>. \<^verbatim>\<open>int(elapsed.total_seconds())\<close> is the difference in whole seconds,
  rounded towards zero.
\<close>

type_synonym instant = int

definition elapsed_seconds :: "instant \<Rightarrow> instant \<Rightarrow> int" where
  "elapsed_seconds start_time now =
     (let d = now - start_time
      in if 0 \<le> d then d div 1000000 else - ((- d) div 1000000))"

text \<open>
  One entry of \<^verbatim>\<open>previous_states\<close>: what the last poll that was not \<^verbatim>\<open>UNKNOWN\<close>
  saved for a printer.
\<close>

record state_record =
  prev_state :: string
  prev_file_name :: "string option"
  prev_username :: "string option"
  prev_time_printing :: "int option"

text \<open>
  The two global dictionaries: \<^verbatim>\<open>previous_states\<close> and \<^verbatim>\<open>print_start_times\<close>, both
  keyed by printer name.
\<close>

record bot =
  previous_states :: "string \<rightharpoonup> state_record"
  print_start_times :: "string \<rightharpoonup> instant"

definition empty_bot :: bot where
  "empty_bot = \<lparr>previous_states = Map.empty, print_start_times = Map.empty\<rparr>"

text \<open>
  A notification sent to the notification channel: which of the two messages it
  is, and the values put into it. \<open>event_file\<close> is \<^verbatim>\<open>prev_file\<close>, \<open>event_user\<close> the
  name given to \<^verbatim>\<open>find_member_by_username\<close>, \<open>event_duration\<close> is \<^verbatim>\<open>duration_str\<close>,
  whose line is left out of the message when it is \<open>None\<close>.
\<close>

datatype event_kind = Completed | Failed

record event =
  event_printer :: string
  event_kind :: event_kind
  event_file :: "string option"
  event_user :: "string option"
  event_duration :: "string option"

text \<open>
  The first loop of \<^verbatim>\<open>update_status\<close> builds, from a polled status, the tuple
  \<^verbatim>\<open>(printer, status, file_name, username)\<close>.
\<close>

definition printer_entry ::
  "printer \<Rightarrow> status \<Rightarrow> printer \<times> status \<times> string option \<times> string option" where
  "printer_entry p st =
     (let file_name = (if state st = ''PRINTING'' then Some (get_file_name st) else None);
          username =
            (case file_name of
               None \<Rightarrow> None
             | Some f \<Rightarrow> if f \<noteq> [] then parse_username_from_filename f else None)
      in (p, st, file_name, username))"

text \<open>
  The duration of a print that ended: the time the printer reported at the last
  poll when that is truthy, else the time since the recorded start, else none.
\<close>

definition duration_str :: "int option \<Rightarrow> instant option \<Rightarrow> instant \<Rightarrow> string option" where
  "duration_str reported_time start_time now =
     (if truthy_int reported_time then Some (format_time reported_time)
      else (case start_time of
              Some t \<Rightarrow> Some (format_time (Some (elapsed_seconds t now)))
            | None \<Rightarrow> None))"

text \<open>
  The body of the second loop of \<^verbatim>\<open>update_status\<close> for one tuple, at the instant
  \<open>now\<close> its one call of \<^verbatim>\<open>datetime.now()\<close> returns (the two calls in the body
  exclude each other). It returns the notifications sent and the dictionaries
  after it. Sending a notification is taken to succeed.
\<close>

definition check_printer ::
  "instant \<Rightarrow> bot \<Rightarrow> printer \<times> status \<times> string option \<times> string option \<Rightarrow> event list \<times> bot" where
  "check_printer now b entry =
     (case entry of (p, st, file_name, username) \<Rightarrow>
        let pname = printer_name p;
            prev = previous_states b pname
        in if state st = ''UNKNOWN'' then ([], b)
           else
             let was_printing =
                   (case prev of None \<Rightarrow> False | Some r \<Rightarrow> prev_state r = ''PRINTING'');
                 starts1 =
                   (if state st = ''PRINTING'' \<and> \<not> was_printing
                    then (print_start_times b)(pname \<mapsto> now)
                    else print_start_times b);
                 (events, starts2) =
                   (case prev of
                      None \<Rightarrow> ([], starts1)
                    | Some r \<Rightarrow>
                        if prev_state r = ''PRINTING'' then
                          let bambu_finished = (raw_bambu_state st = Some ''FINISH'');
                              reported_time = prev_time_printing r;
                              start_time = starts1 pname;
                              starts' = starts1(pname := None);
                              duration = duration_str reported_time start_time now;
                              ev = (\<lambda>k. \<lparr>event_printer = pname, event_kind = k,
                                         event_file = prev_file_name r,
                                         event_user = prev_username r,
                                         event_duration = duration\<rparr>)
                          in if state st \<in> {''IDLE'', ''READY'', ''FINISHED''} \<or> bambu_finished
                             then ([ev Completed], starts')
                             else if state st \<in> {''ERROR'', ''STOPPED''}
                             then ([ev Failed], starts')
                             else ([], starts')
                        else ([], starts1));
                 saved =
                   \<lparr>prev_state = state st, prev_file_name = file_name,
                    prev_username = username, prev_time_printing = time_printing st\<rparr>
             in (events,
                 \<lparr>previous_states = (previous_states b)(pname \<mapsto> saved),
                  print_start_times = starts2\<rparr>))"

text \<open>
  The second loop over the tuples of one cycle, each with its instant, and a run of
  cycles one after the other. The dictionaries live as long as the process.
\<close>

fun check_printers :: "bot \<Rightarrow> (instant \<times> printer \<times> status) list \<Rightarrow> event list \<times> bot" where
  "check_printers b [] = ([], b)"
| "check_printers b ((now, p, st) # rest) =
     (let (events, b') = check_printer now b (printer_entry p st);
          (more, b'') = check_printers b' rest
      in (events @ more, b''))"


text \<open>
  The first loop polls every printer before the second loop starts; an exception
  leaving \<open>poll_printer\<close> would leave \<^verbatim>\<open>update_status\<close> with the dictionaries
  untouched. Both channels are taken to exist.
\<close>

fun poll_all ::
  "(instant \<times> backend \<times> printer) list \<Rightarrow> exn + (instant \<times> printer \<times> status) list" where
  "poll_all [] = Inr []"
| "poll_all ((now, bk, p) # rest) =
     (case poll_printer bk p of
        Inl e \<Rightarrow> Inl e
      | Inr st \<Rightarrow>
          (case poll_all rest of
             Inl e \<Rightarrow> Inl e
           | Inr sts \<Rightarrow> Inr ((now, p, st) # sts)))"

definition update_status ::
  "bot \<Rightarrow> (instant \<times> backend \<times> printer) list \<Rightarrow> exn + event list \<times> bot" where
  "update_status b printers =
     (case poll_all printers of
        Inl e \<Rightarrow> Inl e
      | Inr printer_statuses \<Rightarrow> Inr (check_printers b printer_statuses))"


subsection \<open>Runs that differ in their clock only\<close>





section \<open>Facts about the string operations\<close>

lemma startswith_iff: "startswith s p \<longleftrightarrow> (\<exists>t. s = p @ t)"
  unfolding startswith_def
  by (metis append_eq_conv_conj append_take_drop_id)

lemma endswith_iff: "endswith s e \<longleftrightarrow> (\<exists>u. s = u @ e)"
proof
  assume "endswith s e"
  then have "s = take (length s - length e) s @ e"
    by (metis append_take_drop_id endswith_def)
  then show "\<exists>u. s = u @ e" ..
next
  assume "\<exists>u. s = u @ e"
  then show "endswith s e" by (auto simp: endswith_def)
qed

lemma contains_iff: "contains sep s \<longleftrightarrow> (\<exists>a b. s = a @ sep @ b)"
proof (induction s)
  case Nil
  then show ?case by auto
next
  case (Cons c cs)
  show ?case
  proof
    assume "contains sep (c # cs)"
    then consider "startswith (c # cs) sep" | "contains sep cs" by auto
    then show "\<exists>a b. c # cs = a @ sep @ b"
    proof cases
      case 1
      then obtain t where "c # cs = sep @ t" by (auto simp: startswith_iff)
      then have "c # cs = [] @ sep @ t" by simp
      then show ?thesis by blast
    next
      case 2
      with Cons.IH obtain a b where "cs = a @ sep @ b" by auto
      then have "c # cs = (c # a) @ sep @ b" by simp
      then show ?thesis by blast
    qed
  next
    assume "\<exists>a b. c # cs = a @ sep @ b"
    then obtain a b where ab: "c # cs = a @ sep @ b" by auto
    show "contains sep (c # cs)"
    proof (cases a)
      case Nil
      with ab have "startswith (c # cs) sep" by (auto simp: startswith_iff)
      then show ?thesis by simp
    next
      case (Cons x a')
      with ab have "cs = a' @ sep @ b" by simp
      with Cons.IH have "contains sep cs" by blast
      then show ?thesis by simp
    qed
  qed
qed

lemma split_not_Nil: "split sep s \<noteq> []"
  by (induction sep s rule: split.induct)
     (subst split.simps, auto split: list.splits)

lemma split_marker_Nil: "split ''_@'' [] = [[]]"
  by (subst split.simps) (simp add: startswith_def)

lemma split_marker_hit: "split ''_@'' (CHR ''_'' # CHR ''@'' # s) = [] # split ''_@'' s"
  by (subst split.simps) (simp add: startswith_def)

lemma split_marker_miss:
  "\<not> startswith (c # cs) ''_@'' \<Longrightarrow>
   split ''_@'' (c # cs) = (case split ''_@'' cs of p # ps \<Rightarrow> (c # p) # ps | [] \<Rightarrow> [[c]])"
  by (subst split.simps) (simp)

lemma split_no_sep: "sep \<noteq> [] \<Longrightarrow> \<not> contains sep s \<Longrightarrow> split sep s = [s]"
proof (induction s)
  case Nil
  then show ?case by (subst split.simps) (auto simp: startswith_def)
next
  case (Cons c cs)
  then have "\<not> startswith (c # cs) sep" and "\<not> contains sep cs" by auto
  with Cons show ?case by (subst split.simps) simp
qed

lemma split_single: "sep \<noteq> [] \<Longrightarrow> split sep s = [p] \<Longrightarrow> s = p"
proof (induction s arbitrary: p)
  case Nil
  then show ?case by (subst (asm) split.simps) (auto simp: startswith_def split: if_splits)
next
  case (Cons c cs)
  from Cons.prems show ?case
    apply (subst (asm) split.simps)
    apply (auto split: if_splits list.splits simp: split_not_Nil)
    using Cons.IH apply blast
    done
qed

lemma not_startswith_marker_tail: "\<not> startswith (CHR ''@'' # s) ''_@''"
  by (simp add: startswith_def)

lemma last_split_marker:
  "\<not> contains ''_@'' suf \<Longrightarrow> last (split ''_@'' (pre @ ''_@'' @ suf)) = suf"
proof (induction pre rule: induct_list012)
  case 1
  then show ?case
    by (simp add: split_marker_hit split_no_sep)
next
  case (2 x)
  have "\<not> startswith (x # ''_@'' @ suf) ''_@''"
    by (simp add: startswith_def)
  then have "split ''_@'' (x # ''_@'' @ suf) = [x] # split ''_@'' suf"
    by (simp add: split_marker_miss split_marker_hit)
  with 2 show ?case
    by (simp add: split_no_sep)
next
  case (3 x y zs)
  show ?case
  proof (cases "x = CHR ''_'' \<and> y = CHR ''@''")
    case True
    with 3 show ?thesis by (simp add: split_marker_hit split_not_Nil)
  next
    case False
    then have miss: "\<not> startswith (x # y # zs @ ''_@'' @ suf) ''_@''"
      by (auto simp: startswith_def)
    obtain p ps where pps: "split ''_@'' (y # zs @ ''_@'' @ suf) = p # ps"
      using split_not_Nil by (cases "split ''_@'' (y # zs @ ''_@'' @ suf)") auto
    from 3 have l: "last (p # ps) = suf" using pps by simp
    have "ps \<noteq> []"
    proof
      assume "ps = []"
      with pps have "y # zs @ ''_@'' @ suf = p" using split_single by fastforce
      moreover from l \<open>ps = []\<close> have "p = suf" by simp
      ultimately have "length (y # zs @ ''_@'' @ suf) = length suf" by simp
      then show False by simp
    qed
    with l have "last ((x # p) # ps) = suf" by simp
    with pps miss show ?thesis by (simp add: split_marker_miss)
  qed
qed

lemma strip_extension_find:
  "strip_extension exts s =
     (case find (\<lambda>e. endswith (lower s) e) exts of
        None \<Rightarrow> s
      | Some e \<Rightarrow> take (length s - length e) s)"
  by (induction exts) auto

lemma length_lower [simp]: "length (lower s) = length s"
  by (simp add: lower_def)

lemma lower_drop: "lower (drop n s) = drop n (lower s)"
  by (simp add: lower_def drop_map)

lemma strip_extension_cut:
  assumes "find (\<lambda>e. endswith (lower s) e) exts = Some e"
  shows "\<exists>t. s = strip_extension exts s @ t \<and> lower t = e"
proof -
  from assms have e: "endswith (lower s) e"
    by (auto simp: find_Some_iff)
  let ?t = "drop (length s - length e) s"
  have "s = take (length s - length e) s @ ?t" by simp
  moreover have "lower ?t = e"
    using e by (simp add: lower_drop endswith_def)
  ultimately have "s = take (length s - length e) s @ ?t \<and> lower ?t = e" by simp
  then have "\<exists>t. s = take (length s - length e) s @ t \<and> lower t = e" by (rule exI)
  then show ?thesis
    using assms by (simp add: strip_extension_find)
qed

lemma parse_bob: "parse_username_from_filename ''bracket_v3_@bob.smith.gcode'' = Some ''bob.smith''"
  by code_simp

lemma parse_part: "parse_username_from_filename ''part.3mf'' = None"
  by code_simp

lemma parse_alice: "parse_username_from_filename ''x_@alice.gcode.3mf'' = Some ''alice''"
  by code_simp

lemma first_match_longest:
  "find P known_extensions = Some e \<Longrightarrow> e' \<in> set known_extensions \<Longrightarrow> P e' \<Longrightarrow>
   length e' \<le> length e"
  by (auto simp: known_extensions_def split: if_splits)

section \<open>User name extraction\<close>

text \<open>
  C5. A file name without the marker \<^verbatim>\<open>_@\<close> gives no user. Otherwise, with \<open>suf\<close> what
  follows the last marker (the part after a marker that holds no further marker),
  the first known extension, in the order of the list, that the lower-cased \<open>suf\<close>
  ends with is cut off \<open>suf\<close> itself, once, and the rest is the user in its own
  case; when none matches, the user is \<open>suf\<close>. No known extension that matches is
  longer than the one cut off, and the three examples of the specification hold.
\<close>

theorem parse_username_from_filename_spec:
  "((\<nexists>a b. file_name = a @ ''_@'' @ b) \<longrightarrow> parse_username_from_filename file_name = None) \<and>
   (\<forall>pre suf. file_name = pre @ ''_@'' @ suf \<and> (\<nexists>a b. suf = a @ ''_@'' @ b) \<longrightarrow>
      (case find (\<lambda>e. \<exists>u. lower suf = u @ e) known_extensions of
         None \<Rightarrow> parse_username_from_filename file_name = Some suf
       | Some e \<Rightarrow>
           (\<exists>user t. suf = user @ t \<and> lower t = e \<and>
              parse_username_from_filename file_name = Some user) \<and>
           (\<forall>e' \<in> set known_extensions.
              (\<exists>u. lower suf = u @ e') \<longrightarrow> length e' \<le> length e))) \<and>
   known_extensions = [''.gcode.3mf'', ''.bgcode'', ''.gcode'', ''.gco'', ''.3mf''] \<and>
   parse_username_from_filename ''bracket_v3_@bob.smith.gcode'' = Some ''bob.smith'' \<and>
   parse_username_from_filename ''part.3mf'' = None \<and>
   parse_username_from_filename ''x_@alice.gcode.3mf'' = Some ''alice''"
proof (intro conjI allI impI)
  assume "\<nexists>a b. file_name = a @ ''_@'' @ b"
  then show "parse_username_from_filename file_name = None"
    by (simp add: parse_username_from_filename_def contains_iff)
next
  fix pre suf
  assume a: "file_name = pre @ ''_@'' @ suf \<and> (\<nexists>a b. suf = a @ ''_@'' @ b)"
  then have c: "contains ''_@'' file_name" and n: "\<not> contains ''_@'' suf"
    by (auto simp: contains_iff)
  from a n have l: "last (split ''_@'' file_name) = suf"
    using last_split_marker by blast
  have p: "parse_username_from_filename file_name = Some (strip_extension known_extensions suf)"
    using c l by (simp add: parse_username_from_filename_def)
  have f: "find (\<lambda>e. \<exists>u. lower suf = u @ e) known_extensions =
           find (\<lambda>e. endswith (lower suf) e) known_extensions"
    by (simp add: endswith_iff)
  show "case find (\<lambda>e. \<exists>u. lower suf = u @ e) known_extensions of
         None \<Rightarrow> parse_username_from_filename file_name = Some suf
       | Some e \<Rightarrow>
           (\<exists>user t. suf = user @ t \<and> lower t = e \<and>
              parse_username_from_filename file_name = Some user) \<and>
           (\<forall>e' \<in> set known_extensions.
              (\<exists>u. lower suf = u @ e') \<longrightarrow> length e' \<le> length e)"
  proof (cases "find (\<lambda>e. endswith (lower suf) e) known_extensions")
    case None
    then show ?thesis using p f by (simp add: strip_extension_find)
  next
    case (Some e)
    from strip_extension_cut [OF Some] obtain t where
      "suf = strip_extension known_extensions suf @ t" "lower t = e" by blast
    with p have "\<exists>user t. suf = user @ t \<and> lower t = e \<and>
              parse_username_from_filename file_name = Some user" by blast
    moreover have "\<forall>e' \<in> set known_extensions.
              (\<exists>u. lower suf = u @ e') \<longrightarrow> length e' \<le> length e"
      using first_match_longest [OF Some] by (simp add: endswith_iff)
    ultimately show ?thesis using f Some by simp
  qed
qed (simp_all add: known_extensions_def parse_bob parse_part parse_alice)

lemma part_has_no_marker: "\<not> contains ''_@'' ''part.3mf''"
  by code_simp

lemma al_has_no_marker: "\<not> contains ''_@'' ''Al.GCode''"
  by code_simp

lemma al_extension:
  "find (\<lambda>e. endswith (lower ''Al.GCode'') e) known_extensions = Some ''.gcode''"
  by code_simp

theorem parse_username_from_filename_spec_witness:
  "(\<nexists>a b. ''part.3mf'' = a @ ''_@'' @ b) \<and>
   parse_username_from_filename ''part.3mf'' = None \<and>
   ''x_@Al.GCode'' = ''x'' @ ''_@'' @ ''Al.GCode'' \<and>
   (\<nexists>a b. ''Al.GCode'' = a @ ''_@'' @ b) \<and>
   find (\<lambda>e. \<exists>u. lower ''Al.GCode'' = u @ e) known_extensions = Some ''.gcode'' \<and>
   (\<exists>user t. ''Al.GCode'' = user @ t \<and> lower t = ''.gcode'' \<and>
      parse_username_from_filename ''x_@Al.GCode'' = Some user)"
proof -
  have h1: "\<nexists>a b. ''part.3mf'' = a @ ''_@'' @ b"
    using part_has_no_marker contains_iff by blast
  have h2: "\<nexists>a b. ''Al.GCode'' = a @ ''_@'' @ b"
    using al_has_no_marker contains_iff by blast
  have h3: "''x_@Al.GCode'' = ''x'' @ ''_@'' @ ''Al.GCode''"
    by simp
  have f: "find (\<lambda>e. \<exists>u. lower ''Al.GCode'' = u @ e) known_extensions = Some ''.gcode''"
    using al_extension by (simp add: endswith_iff)
  from parse_username_from_filename_spec [of "''part.3mf''"] h1
  have c1: "parse_username_from_filename ''part.3mf'' = None"
    by blast
  from parse_username_from_filename_spec [of "''x_@Al.GCode''"] h2 h3
  have "case find (\<lambda>e. \<exists>u. lower ''Al.GCode'' = u @ e) known_extensions of
          None \<Rightarrow> parse_username_from_filename ''x_@Al.GCode'' = Some ''Al.GCode''
        | Some e \<Rightarrow>
            (\<exists>user t. ''Al.GCode'' = user @ t \<and> lower t = e \<and>
               parse_username_from_filename ''x_@Al.GCode'' = Some user) \<and>
            (\<forall>e' \<in> set known_extensions.
               (\<exists>u. lower ''Al.GCode'' = u @ e') \<longrightarrow> length e' \<le> length e)"
    by blast
  then have c2: "\<exists>user t. ''Al.GCode'' = user @ t \<and> lower t = ''.gcode'' \<and>
      parse_username_from_filename ''x_@Al.GCode'' = Some user"
    by (simp only: f option.case)
  from h1 c1 h3 h2 f c2 show ?thesis
    by (intro conjI)
qed


section \<open>One printer in one cycle\<close>

lemma unknown_skipped:
  "state st = ''UNKNOWN'' \<Longrightarrow> check_printer now b (printer_entry p st) = ([], b)"
  by (simp add: check_printer_def printer_entry_def Let_def)

lemma check_printer_was_printing:
  assumes "previous_states b (printer_name p) = Some r" and "prev_state r = ''PRINTING''"
      and "state st \<noteq> ''UNKNOWN''"
  shows "check_printer now b (p, st, file_name, username) =
     ((if state st \<in> {''IDLE'', ''READY'', ''FINISHED''} \<or> raw_bambu_state st = Some ''FINISH''
       then [\<lparr>event_printer = printer_name p, event_kind = Completed,
               event_file = prev_file_name r, event_user = prev_username r,
               event_duration =
                 duration_str (prev_time_printing r) (print_start_times b (printer_name p)) now\<rparr>]
       else if state st \<in> {''ERROR'', ''STOPPED''}
       then [\<lparr>event_printer = printer_name p, event_kind = Failed,
               event_file = prev_file_name r, event_user = prev_username r,
               event_duration =
                 duration_str (prev_time_printing r) (print_start_times b (printer_name p)) now\<rparr>]
       else []),
      \<lparr>previous_states = (previous_states b)(printer_name p \<mapsto>
          \<lparr>prev_state = state st, prev_file_name = file_name,
           prev_username = username, prev_time_printing = time_printing st\<rparr>),
       print_start_times = (print_start_times b)(printer_name p := None)\<rparr>)"
  using assms by (simp add: check_printer_def Let_def)

lemma check_printer_not_printing:
  assumes "\<forall>r. previous_states b (printer_name p) = Some r \<longrightarrow> prev_state r \<noteq> ''PRINTING''"
      and "state st \<noteq> ''UNKNOWN''"
  shows "check_printer now b (p, st, file_name, username) =
     ([],
      \<lparr>previous_states = (previous_states b)(printer_name p \<mapsto>
          \<lparr>prev_state = state st, prev_file_name = file_name,
           prev_username = username, prev_time_printing = time_printing st\<rparr>),
       print_start_times =
         (if state st = ''PRINTING'' then (print_start_times b)(printer_name p \<mapsto> now)
          else print_start_times b)\<rparr>)"
  using assms
  by (cases "previous_states b (printer_name p)") (simp_all add: check_printer_def Let_def)

lemma saved_record:
  "state st \<noteq> ''UNKNOWN'' \<Longrightarrow>
   previous_states (snd (check_printer now b (p, st, file_name, username))) (printer_name p) =
     Some \<lparr>prev_state = state st, prev_file_name = file_name,
           prev_username = username, prev_time_printing = time_printing st\<rparr>"
  by (simp add: check_printer_def Let_def split: option.splits prod.splits)

lemma get_file_name_not_empty: "get_file_name st \<noteq> []"
  by (auto simp: get_file_name_def py_or_def truthy_str_def Let_def split: option.splits)

lemma printer_entry_printing:
  "state st = ''PRINTING'' \<Longrightarrow>
   printer_entry p st =
     (p, st, Some (get_file_name st), parse_username_from_filename (get_file_name st))"
  by (simp add: printer_entry_def get_file_name_not_empty)

subsection \<open>What the backends can return\<close>

lemma get_printer_status_raw:
  "get_printer_status sr jr = Inr st \<Longrightarrow> raw_bambu_state st = None"
  by (auto simp: get_printer_status_def state_only_def Let_def
      split: sum.splits if_splits option.splits)

lemma map_of_state_map_FINISH: "map_of state_map ''FINISH'' = Some ''IDLE''"
  by (simp add: state_map_def)

lemma get_bambu_status_finish:
  "get_bambu_status conns n = Inr st \<Longrightarrow> raw_bambu_state st = Some ''FINISH'' \<Longrightarrow>
   state st = ''IDLE''"
  by (auto simp: get_bambu_status_def state_only_def Let_def map_of_state_map_FINISH
      split: sum.splits if_splits option.splits)

lemma poll_printer_finish:
  "poll_printer bk p = Inr st \<Longrightarrow> raw_bambu_state st = Some ''FINISH'' \<Longrightarrow> state st = ''IDLE''"
  by (auto simp: poll_printer_def Let_def
      dest: get_printer_status_raw get_bambu_status_finish split: if_splits)

lemma get_bambu_status_no_time:
  "get_bambu_status conns n = Inr st \<Longrightarrow> time_printing st = None"
  by (auto simp: get_bambu_status_def state_only_def Let_def
      split: option.splits sum.splits if_splits)

subsection \<open>Durations of the examples\<close>

lemma format_5400: "format_time (Some 5400) = ''1h 30m''"
  by code_simp

lemma format_125: "format_time (Some (elapsed_seconds 0 125000000)) = ''2m''"
  by code_simp


lemma format_0: "format_time (Some 0) = ''0m''"
  by code_simp

section \<open>Readings that carry no information\<close>

text \<open>
  C3. When the reading of a printer has the state \<^verbatim>\<open>UNKNOWN\<close>, its pass through the
  loop sends no notification and returns both dictionaries as they were: the saved
  record of the printer is unchanged and no start instant is recorded.
\<close>

theorem unknown_reading_skipped:
  "state st = ''UNKNOWN'' \<Longrightarrow> check_printer now b (printer_entry p st) = ([], b)"
  by (simp add: check_printer_def printer_entry_def Let_def)

theorem unknown_reading_skipped_witness:
  "state (state_only ''UNKNOWN'') = ''UNKNOWN'' \<and>
   check_printer 0
     \<lparr>previous_states = [''x1c'' \<mapsto> \<lparr>prev_state = ''PRINTING'', prev_file_name = Some ''a.3mf'',
                                      prev_username = None, prev_time_printing = None\<rparr>],
      print_start_times = [''x1c'' \<mapsto> 0]\<rparr>
     (printer_entry \<lparr>printer_name = ''x1c'', printer_type = Some ''bambu''\<rparr>
        (state_only ''UNKNOWN'')) =
   ([], \<lparr>previous_states = [''x1c'' \<mapsto> \<lparr>prev_state = ''PRINTING'', prev_file_name = Some ''a.3mf'',
                                      prev_username = None, prev_time_printing = None\<rparr>],
      print_start_times = [''x1c'' \<mapsto> 0]\<rparr>)"
proof -
  have h: "state (state_only ''UNKNOWN'') = ''UNKNOWN''"
    by (simp add: state_only_def)
  from h unknown_reading_skipped [OF h] show ?thesis by blast
qed

section \<open>Leaving the printing state\<close>

text \<open>
  C1, as stated, fails: PrusaLink reports the state \<^verbatim>\<open>READY\<close>, the pull backend passes
  it on unchanged, and a printer that was printing and now reads \<^verbatim>\<open>READY\<close> gets the
  completion message, although \<^verbatim>\<open>READY\<close> is neither \<^verbatim>\<open>IDLE\<close> nor \<^verbatim>\<open>FINISHED\<close> and
  the reading has no raw state \<^verbatim>\<open>FINISH\<close>.
\<close>

theorem ready_completes_print:
  "poll_printer
      \<lparr>status_response = Inr \<lparr>printer_state = Some ''READY'', job_time_remaining = None,
                               job_time_printing = None\<rparr>,
       job_response = Inl HTTPError, bambu_connections = Map.empty\<rparr>
      \<lparr>printer_name = ''mk3'', printer_type = None\<rparr> = Inr (state_only ''READY'') \<and>
   map event_kind (fst (check_printer 0
      \<lparr>previous_states = [''mk3'' \<mapsto> \<lparr>prev_state = ''PRINTING'', prev_file_name = Some ''a.gcode'',
                                       prev_username = None, prev_time_printing = None\<rparr>],
       print_start_times = Map.empty\<rparr>
      (printer_entry \<lparr>printer_name = ''mk3'', printer_type = None\<rparr> (state_only ''READY'')))) =
     [Completed] \<and>
   state (state_only ''READY'') \<notin> {''IDLE'', ''FINISHED''} \<and>
   raw_bambu_state (state_only ''READY'') \<noteq> Some ''FINISH''"
  by (simp add: poll_printer_def get_printer_status_def state_only_def Let_def
      check_printer_def printer_entry_def)

text \<open>
  C1, amended. For a printer whose saved record has the state \<^verbatim>\<open>PRINTING\<close> and whose
  reading comes from \<open>poll_printer\<close>: a completion message is sent exactly when the
  state read is \<^verbatim>\<open>IDLE\<close>, \<^verbatim>\<open>READY\<close> or \<^verbatim>\<open>FINISHED\<close> or the raw Bambu state is
  \<^verbatim>\<open>FINISH\<close>; a failure message exactly when the state read is \<^verbatim>\<open>ERROR\<close> or
  \<^verbatim>\<open>STOPPED\<close>; in every other case none is sent; and never more than one.
\<close>

theorem printing_exit_classification:
  assumes polled: "poll_printer bk p = Inr st"
      and prev: "previous_states b (printer_name p) = Some r"
      and printing: "prev_state r = ''PRINTING''"
  shows "(Completed \<in> event_kind ` set (fst (check_printer now b (printer_entry p st))) \<longleftrightarrow>
            state st \<in> {''IDLE'', ''READY'', ''FINISHED''} \<or>
            raw_bambu_state st = Some ''FINISH'') \<and>
         (Failed \<in> event_kind ` set (fst (check_printer now b (printer_entry p st))) \<longleftrightarrow>
            state st \<in> {''ERROR'', ''STOPPED''}) \<and>
         (\<not> (state st \<in> {''IDLE'', ''READY'', ''FINISHED''} \<or>
              raw_bambu_state st = Some ''FINISH'') \<and>
          state st \<notin> {''ERROR'', ''STOPPED''} \<longrightarrow>
            fst (check_printer now b (printer_entry p st)) = []) \<and>
         length (fst (check_printer now b (printer_entry p st))) \<le> 1"
proof (cases "state st = ''UNKNOWN''")
  case True
  from polled have "raw_bambu_state st = Some ''FINISH'' \<Longrightarrow> state st = ''IDLE''"
    by (rule poll_printer_finish)
  with True have "raw_bambu_state st \<noteq> Some ''FINISH''" by auto
  with True show ?thesis by (simp add: unknown_skipped)
next
  case False
  from polled have fin: "raw_bambu_state st = Some ''FINISH'' \<Longrightarrow> state st = ''IDLE''"
    by (rule poll_printer_finish)
  show ?thesis
    using fin
    by (auto simp: printer_entry_def Let_def check_printer_was_printing [OF prev printing False])
qed

theorem printing_exit_classification_witness:
  "poll_printer
      \<lparr>status_response = Inr \<lparr>printer_state = Some ''ERROR'', job_time_remaining = None,
                               job_time_printing = None\<rparr>,
       job_response = Inl HTTPError, bambu_connections = Map.empty\<rparr>
      \<lparr>printer_name = ''mk3'', printer_type = None\<rparr> = Inr (state_only ''ERROR'') \<and>
   previous_states
      \<lparr>previous_states = [''mk3'' \<mapsto> \<lparr>prev_state = ''PRINTING'', prev_file_name = Some ''a.gcode'',
                                       prev_username = None, prev_time_printing = None\<rparr>],
       print_start_times = Map.empty\<rparr> ''mk3'' =
     Some \<lparr>prev_state = ''PRINTING'', prev_file_name = Some ''a.gcode'',
           prev_username = None, prev_time_printing = None\<rparr> \<and>
   Failed \<in> event_kind ` set (fst (check_printer 0
      \<lparr>previous_states = [''mk3'' \<mapsto> \<lparr>prev_state = ''PRINTING'', prev_file_name = Some ''a.gcode'',
                                       prev_username = None, prev_time_printing = None\<rparr>],
       print_start_times = Map.empty\<rparr>
      (printer_entry \<lparr>printer_name = ''mk3'', printer_type = None\<rparr> (state_only ''ERROR'')))) \<and>
   Completed \<notin> event_kind ` set (fst (check_printer 0
      \<lparr>previous_states = [''mk3'' \<mapsto> \<lparr>prev_state = ''PRINTING'', prev_file_name = Some ''a.gcode'',
                                       prev_username = None, prev_time_printing = None\<rparr>],
       print_start_times = Map.empty\<rparr>
      (printer_entry \<lparr>printer_name = ''mk3'', printer_type = None\<rparr> (state_only ''ERROR''))))"
proof -
  let ?bk = "\<lparr>status_response = Inr \<lparr>printer_state = Some ''ERROR'', job_time_remaining = None,
                               job_time_printing = None\<rparr>,
       job_response = Inl HTTPError, bambu_connections = Map.empty\<rparr>"
  let ?p = "\<lparr>printer_name = ''mk3'', printer_type = None\<rparr>"
  let ?r = "\<lparr>prev_state = ''PRINTING'', prev_file_name = Some ''a.gcode'',
             prev_username = None, prev_time_printing = None\<rparr>"
  let ?b = "\<lparr>previous_states = [''mk3'' \<mapsto> ?r], print_start_times = Map.empty\<rparr>"
  have h1: "poll_printer ?bk ?p = Inr (state_only ''ERROR'')"
    by (simp add: poll_printer_def get_printer_status_def state_only_def Let_def)
  have h2: "previous_states ?b (printer_name ?p) = Some ?r" by simp
  have h3: "prev_state ?r = ''PRINTING''" by simp
  have s: "state (state_only ''ERROR'') = ''ERROR''"
    "raw_bambu_state (state_only ''ERROR'') = None"
    by (simp_all add: state_only_def)
  from printing_exit_classification [OF h1 h2 h3, of 0] h1 h2 show ?thesis
    by (simp add: s)
qed

section \<open>The duration of a print that ended\<close>

text \<open>
  C2, as stated, fails: the reported time is tested by truthiness, so a saved
  \<^verbatim>\<open>time_printing\<close> of zero is present and still passed over. With a start instant
  recorded 125 seconds before, the message shows \<^verbatim>\<open>2m\<close>, not the \<^verbatim>\<open>0m\<close> of the
  reported time; with none recorded, the duration is left out.
\<close>

theorem zero_reported_time_skipped:
  "map event_duration (fst (check_printer 125000000
      \<lparr>previous_states = [''mk3'' \<mapsto> \<lparr>prev_state = ''PRINTING'', prev_file_name = Some ''a.gcode'',
                                       prev_username = None, prev_time_printing = Some 0\<rparr>],
       print_start_times = [''mk3'' \<mapsto> 0]\<rparr>
      (printer_entry \<lparr>printer_name = ''mk3'', printer_type = None\<rparr> (state_only ''IDLE'')))) =
     [Some ''2m''] \<and>
   map event_duration (fst (check_printer 125000000
      \<lparr>previous_states = [''mk3'' \<mapsto> \<lparr>prev_state = ''PRINTING'', prev_file_name = Some ''a.gcode'',
                                       prev_username = None, prev_time_printing = Some 0\<rparr>],
       print_start_times = Map.empty\<rparr>
      (printer_entry \<lparr>printer_name = ''mk3'', printer_type = None\<rparr> (state_only ''IDLE'')))) =
     [None] \<and>
   format_time (Some 0) = ''0m''"
  by (simp add: state_only_def Let_def check_printer_def printer_entry_def duration_str_def
      truthy_int_def format_125 format_0)

text \<open>
  C2, amended. For a printer whose saved record has the state \<^verbatim>\<open>PRINTING\<close>, every
  message sent in the cycle takes its duration from the saved \<^verbatim>\<open>time_printing\<close> when
  that is present and not zero; otherwise from the time since the start instant
  recorded for the printer, when there is one; otherwise it has no duration. A
  reading of \<^verbatim>\<open>IDLE\<close>, \<^verbatim>\<open>READY\<close>, \<^verbatim>\<open>FINISHED\<close>, \<^verbatim>\<open>ERROR\<close> or \<^verbatim>\<open>STOPPED\<close> sends one
  message, and at every instant a saved time of 5400 seconds followed by \<^verbatim>\<open>IDLE\<close>
  gives the duration \<^verbatim>\<open>1h 30m\<close>.
\<close>

theorem duration_priority:
  assumes prev: "previous_states b (printer_name p) = Some r"
      and printing: "prev_state r = ''PRINTING''"
  shows "(\<forall>e \<in> set (fst (check_printer now b (printer_entry p st))).
            (\<forall>t. prev_time_printing r = Some t \<and> t \<noteq> 0 \<longrightarrow>
               event_duration e = Some (format_time (Some t))) \<and>
            (prev_time_printing r = None \<or> prev_time_printing r = Some 0 \<longrightarrow>
               (\<forall>t0. print_start_times b (printer_name p) = Some t0 \<longrightarrow>
                  event_duration e = Some (format_time (Some (elapsed_seconds t0 now)))) \<and>
               (print_start_times b (printer_name p) = None \<longrightarrow> event_duration e = None))) \<and>
         (state st \<in> {''IDLE'', ''READY'', ''FINISHED'', ''ERROR'', ''STOPPED''} \<longrightarrow>
            length (fst (check_printer now b (printer_entry p st))) = 1) \<and>
         (state st = ''IDLE'' \<and> prev_time_printing r = Some 5400 \<longrightarrow>
            map event_duration (fst (check_printer now b (printer_entry p st))) =
              [Some ''1h 30m''])"
proof (cases "state st = ''UNKNOWN''")
  case True
  then show ?thesis by (simp add: unknown_skipped)
next
  case False
  show ?thesis
    unfolding printer_entry_def Let_def check_printer_was_printing [OF prev printing False]
    by (auto simp: duration_str_def truthy_int_def format_5400)
qed

theorem duration_priority_witness:
  "previous_states
      \<lparr>previous_states = [''x1c'' \<mapsto> \<lparr>prev_state = ''PRINTING'', prev_file_name = Some ''a.3mf'',
                                       prev_username = None, prev_time_printing = None\<rparr>],
       print_start_times = [''x1c'' \<mapsto> 0]\<rparr> ''x1c'' =
     Some \<lparr>prev_state = ''PRINTING'', prev_file_name = Some ''a.3mf'',
           prev_username = None, prev_time_printing = None\<rparr> \<and>
   state (state_only ''IDLE'') \<in> {''IDLE'', ''READY'', ''FINISHED'', ''ERROR'', ''STOPPED''} \<and>
   print_start_times
      \<lparr>previous_states = [''x1c'' \<mapsto> \<lparr>prev_state = ''PRINTING'', prev_file_name = Some ''a.3mf'',
                                       prev_username = None, prev_time_printing = None\<rparr>],
       print_start_times = [''x1c'' \<mapsto> 0]\<rparr> ''x1c'' = Some 0 \<and>
   map event_duration (fst (check_printer 125000000
      \<lparr>previous_states = [''x1c'' \<mapsto> \<lparr>prev_state = ''PRINTING'', prev_file_name = Some ''a.3mf'',
                                       prev_username = None, prev_time_printing = None\<rparr>],
       print_start_times = [''x1c'' \<mapsto> 0]\<rparr>
      (printer_entry \<lparr>printer_name = ''x1c'', printer_type = Some ''bambu''\<rparr>
         (state_only ''IDLE'')))) =
     [Some ''2m'']"
proof -
  let ?p = "\<lparr>printer_name = ''x1c'', printer_type = Some ''bambu''\<rparr>"
  let ?r = "\<lparr>prev_state = ''PRINTING'', prev_file_name = Some ''a.3mf'',
             prev_username = None, prev_time_printing = None\<rparr>"
  let ?b = "\<lparr>previous_states = [''x1c'' \<mapsto> ?r], print_start_times = [''x1c'' \<mapsto> 0]\<rparr>"
  let ?evs = "fst (check_printer 125000000 ?b (printer_entry ?p (state_only ''IDLE'')))"
  have h2: "previous_states ?b (printer_name ?p) = Some ?r" by simp
  have h3: "prev_state ?r = ''PRINTING''" by simp
  have s: "state (state_only ''IDLE'') = ''IDLE''"
    by (simp add: state_only_def)
  have t: "print_start_times ?b ''x1c'' = Some 0" by simp
  note c = duration_priority [OF h2 h3, of 125000000 "state_only ''IDLE''"]
  from c s have len: "length ?evs = 1" by simp
  then obtain e where e: "?evs = [e]"
    by (cases ?evs) auto
  from c e have "event_duration e = Some (format_time (Some (elapsed_seconds 0 125000000)))"
    by simp
  with e have "map event_duration ?evs = [Some ''2m'']"
    by (simp add: format_125)
  with h2 s t show ?thesis by simp
qed

section \<open>The recorded start instant\<close>

text \<open>
  C4. The start instant is taken out of \<^verbatim>\<open>print_start_times\<close> by \<^verbatim>\<open>pop\<close> before the
  state read is looked at, in every pass whose saved record has the state
  \<^verbatim>\<open>PRINTING\<close>. Here a printer that was printing, with a start instant recorded,
  reads \<^verbatim>\<open>PAUSED\<close>: no message is sent, and the start instant is gone.
\<close>

theorem session_dropped_without_event:
  "fst (check_printer 30000000
      \<lparr>previous_states = [''x1c'' \<mapsto> \<lparr>prev_state = ''PRINTING'', prev_file_name = Some ''a.3mf'',
                                       prev_username = None, prev_time_printing = None\<rparr>],
       print_start_times = [''x1c'' \<mapsto> 0]\<rparr>
      (printer_entry \<lparr>printer_name = ''x1c'', printer_type = Some ''bambu''\<rparr>
         (state_only ''PAUSED''))) = [] \<and>
   print_start_times (snd (check_printer 30000000
      \<lparr>previous_states = [''x1c'' \<mapsto> \<lparr>prev_state = ''PRINTING'', prev_file_name = Some ''a.3mf'',
                                       prev_username = None, prev_time_printing = None\<rparr>],
       print_start_times = [''x1c'' \<mapsto> 0]\<rparr>
      (printer_entry \<lparr>printer_name = ''x1c'', printer_type = Some ''bambu''\<rparr>
         (state_only ''PAUSED'')))) ''x1c'' = None"
  by (simp add: state_only_def Let_def check_printer_def printer_entry_def)


section \<open>A cycle is never cut short by a poll\<close>

lemma get_bambu_status_returns: "\<exists>st. get_bambu_status conns n = Inr st"
  by (auto simp: get_bambu_status_def Let_def split: option.splits sum.splits)

lemma get_printer_status_returns: "\<exists>st. get_printer_status sr jr = Inr st"
  by (auto simp: get_printer_status_def Let_def split: option.splits sum.splits)

lemma poll_printer_returns: "\<exists>st. poll_printer bk p = Inr st"
  using get_bambu_status_returns get_printer_status_returns
  by (simp add: poll_printer_def Let_def)

lemma poll_all_returns: "\<exists>sts. poll_all printers = Inr sts"
proof (induction printers)
  case Nil
  then show ?case by simp
next
  case (Cons x xs)
  obtain now bk p where x: "x = (now, bk, p)" by (cases x) auto
  from poll_printer_returns obtain st where "poll_printer bk p = Inr st" by blast
  with Cons x show ?case by auto
qed

text \<open>
  Whatever the requests and the clients of a cycle do, no exception of a poll leaves
  \<open>update_status\<close>: it returns the messages sent and the dictionaries after the
  cycle.
\<close>

theorem update_status_returns: "\<exists>events b'. update_status b printers = Inr (events, b')"
proof -
  from poll_all_returns obtain sts where "poll_all printers = Inr sts" by blast
  then show ?thesis
    by (cases "check_printers b sts") (simp add: update_status_def)
qed

section \<open>What a notification carries\<close>

text \<open>
  C6. Every message sent for a printer whose saved record has the state \<^verbatim>\<open>PRINTING\<close>
  names that printer and carries the file name and the user name of the saved
  record, whatever the current reading holds. For two readings of a printer one
  after the other, the first with the state \<^verbatim>\<open>PRINTING\<close>, every message sent at the
  second carries the file name \<open>get_file_name\<close> gives for the first reading and the
  user name parsed from it.
\<close>

theorem event_from_previous_record:
  "(\<forall>r. previous_states b (printer_name p) = Some r \<and> prev_state r = ''PRINTING'' \<longrightarrow>
      (\<forall>e \<in> set (fst (check_printer now b (printer_entry p st))).
         event_printer e = printer_name p \<and>
         event_file e = prev_file_name r \<and> event_user e = prev_username r)) \<and>
   (state st1 = ''PRINTING'' \<longrightarrow>
      (\<forall>e \<in> set (fst (check_printer now2
                        (snd (check_printer now1 b (printer_entry p st1)))
                        (printer_entry p st2))).
         event_printer e = printer_name p \<and>
         event_file e = Some (get_file_name st1) \<and>
         event_user e = parse_username_from_filename (get_file_name st1)))"
proof (intro conjI allI impI)
  fix r
  assume a: "previous_states b (printer_name p) = Some r \<and> prev_state r = ''PRINTING''"
  show "\<forall>e \<in> set (fst (check_printer now b (printer_entry p st))).
         event_printer e = printer_name p \<and>
         event_file e = prev_file_name r \<and> event_user e = prev_username r"
  proof (cases "state st = ''UNKNOWN''")
    case True
    then show ?thesis by (simp add: unknown_skipped)
  next
    case False
    from a have prev: "previous_states b (printer_name p) = Some r"
      and printing: "prev_state r = ''PRINTING''" by auto
    show ?thesis
      unfolding printer_entry_def Let_def check_printer_was_printing [OF prev printing False]
      by auto
  qed
next
  assume s1: "state st1 = ''PRINTING''"
  let ?b1 = "snd (check_printer now1 b (printer_entry p st1))"
  let ?r = "\<lparr>prev_state = ''PRINTING'', prev_file_name = Some (get_file_name st1),
             prev_username = parse_username_from_filename (get_file_name st1),
             prev_time_printing = time_printing st1\<rparr>"
  from s1 have prev: "previous_states ?b1 (printer_name p) = Some ?r"
    by (simp add: printer_entry_printing saved_record)
  have printing: "prev_state ?r = ''PRINTING''" by simp
  show "\<forall>e \<in> set (fst (check_printer now2 ?b1 (printer_entry p st2))).
         event_printer e = printer_name p \<and>
         event_file e = Some (get_file_name st1) \<and>
         event_user e = parse_username_from_filename (get_file_name st1)"
  proof (cases "state st2 = ''UNKNOWN''")
    case True
    then show ?thesis by (simp add: unknown_skipped)
  next
    case False
    show ?thesis
      unfolding printer_entry_def [of p st2] Let_def
        check_printer_was_printing [OF prev printing False]
      by auto
  qed
qed

theorem event_from_previous_record_witness:
  "previous_states
      \<lparr>previous_states = [''mk3'' \<mapsto> \<lparr>prev_state = ''PRINTING'', prev_file_name = Some ''a_@kim.gcode'',
                                       prev_username = Some ''kim'', prev_time_printing = None\<rparr>],
       print_start_times = Map.empty\<rparr> ''mk3'' =
     Some \<lparr>prev_state = ''PRINTING'', prev_file_name = Some ''a_@kim.gcode'',
           prev_username = Some ''kim'', prev_time_printing = None\<rparr> \<and>
   map event_file (fst (check_printer 0
      \<lparr>previous_states = [''mk3'' \<mapsto> \<lparr>prev_state = ''PRINTING'', prev_file_name = Some ''a_@kim.gcode'',
                                       prev_username = Some ''kim'', prev_time_printing = None\<rparr>],
       print_start_times = Map.empty\<rparr>
      (printer_entry \<lparr>printer_name = ''mk3'', printer_type = None\<rparr> (state_only ''IDLE'')))) =
     [Some ''a_@kim.gcode''] \<and>
   map event_user (fst (check_printer 0
      \<lparr>previous_states = [''mk3'' \<mapsto> \<lparr>prev_state = ''PRINTING'', prev_file_name = Some ''a_@kim.gcode'',
                                       prev_username = Some ''kim'', prev_time_printing = None\<rparr>],
       print_start_times = Map.empty\<rparr>
      (printer_entry \<lparr>printer_name = ''mk3'', printer_type = None\<rparr> (state_only ''IDLE'')))) =
     [Some ''kim''] \<and>
   state (state_only ''PRINTING'') = ''PRINTING'' \<and>
   map event_file (fst (check_printer 60000000
      (snd (check_printer 0 empty_bot
         (printer_entry \<lparr>printer_name = ''mk3'', printer_type = None\<rparr> (state_only ''PRINTING''))))
      (printer_entry \<lparr>printer_name = ''mk3'', printer_type = None\<rparr> (state_only ''STOPPED'')))) =
     [Some (get_file_name (state_only ''PRINTING''))]"
proof -
  let ?p = "\<lparr>printer_name = ''mk3'', printer_type = None\<rparr>"
  let ?r = "\<lparr>prev_state = ''PRINTING'', prev_file_name = Some ''a_@kim.gcode'',
             prev_username = Some ''kim'', prev_time_printing = None\<rparr>"
  let ?b = "\<lparr>previous_states = [''mk3'' \<mapsto> ?r], print_start_times = Map.empty\<rparr>"
  let ?evs = "fst (check_printer 0 ?b (printer_entry ?p (state_only ''IDLE'')))"
  let ?evs2 = "fst (check_printer 60000000
      (snd (check_printer 0 empty_bot (printer_entry ?p (state_only ''PRINTING''))))
      (printer_entry ?p (state_only ''STOPPED'')))"
  note c = event_from_previous_record
    [of ?b ?p 0 "state_only ''IDLE''" "state_only ''PRINTING''" 60000000 0 "state_only ''STOPPED''"]
  have h1: "previous_states ?b (printer_name ?p) = Some ?r \<and> prev_state ?r = ''PRINTING''"
    by simp
  have h2: "state (state_only ''PRINTING'') = ''PRINTING''"
    by (simp add: state_only_def)
  have l1: "length ?evs = 1"
    by (simp add: check_printer_def printer_entry_def state_only_def Let_def)
  have l2: "length ?evs2 = 1"
    by (simp add: check_printer_def printer_entry_def state_only_def Let_def empty_bot_def)
  from l1 obtain e where e: "?evs = [e]" by (cases ?evs) auto
  from l2 obtain e2 where e2: "?evs2 = [e2]" by (cases ?evs2) auto
  from c h1 e have "event_file e = Some ''a_@kim.gcode'' \<and> event_user e = Some ''kim''"
    by simp
  moreover from event_from_previous_record
      [of empty_bot ?p 0 "state_only ''IDLE''" "state_only ''PRINTING''" 60000000 0
          "state_only ''STOPPED''"] h2 e2
  have "event_file e2 = Some (get_file_name (state_only ''PRINTING''))"
    by simp
  ultimately show ?thesis using e e2 h2 by simp
qed

section \<open>The pull backend never raises\<close>

text \<open>
  C7. \<open>get_printer_status\<close> always returns a status. When the status request raises
  a connection error or a timeout, the status is \<^verbatim>\<open>OFFLINE\<close> alone; when it raises
  anything else, \<^verbatim>\<open>UNKNOWN\<close> alone; and when the status request answers \<^verbatim>\<open>PRINTING\<close>
  and the job request raises, the status still has the state \<^verbatim>\<open>PRINTING\<close>, with no
  job data and so no file name from the printer.
\<close>

theorem get_printer_status_never_raises:
  "(\<exists>st. get_printer_status sr jr = Inr st) \<and>
   (\<forall>e. sr = Inl e \<and> (is_ConnectionError e \<or> is_Timeout e) \<longrightarrow>
      get_printer_status sr jr = Inr (state_only ''OFFLINE'')) \<and>
   (\<forall>e. sr = Inl e \<and> \<not> is_ConnectionError e \<and> \<not> is_Timeout e \<longrightarrow>
      get_printer_status sr jr = Inr (state_only ''UNKNOWN'')) \<and>
   (\<forall>d e. sr = Inr d \<and> printer_state d = Some ''PRINTING'' \<and> jr = Inl e \<longrightarrow>
      (\<exists>st. get_printer_status sr jr = Inr st \<and>
            state st = ''PRINTING'' \<and> job_data st = None))"
  by (auto simp: get_printer_status_def state_only_def Let_def split: sum.splits option.splits)

theorem get_printer_status_never_raises_witness:
  "is_Timeout ReadTimeout \<and>
   get_printer_status (Inl ReadTimeout) (Inl HTTPError) = Inr (state_only ''OFFLINE'') \<and>
   \<not> is_ConnectionError JSONDecodeError \<and> \<not> is_Timeout JSONDecodeError \<and>
   get_printer_status (Inl JSONDecodeError) (Inl HTTPError) = Inr (state_only ''UNKNOWN'') \<and>
   (\<exists>st. get_printer_status
           (Inr \<lparr>printer_state = Some ''PRINTING'', job_time_remaining = Some 600,
                 job_time_printing = Some 60\<rparr>)
           (Inl ConnectionError) = Inr st \<and>
         state st = ''PRINTING'' \<and> job_data st = None)"
proof -
  let ?d = "\<lparr>printer_state = Some ''PRINTING'', job_time_remaining = Some 600,
             job_time_printing = Some 60\<rparr>"
  have h1: "is_Timeout ReadTimeout"
    by (simp add: is_Timeout_def)
  have h2: "\<not> is_ConnectionError JSONDecodeError \<and> \<not> is_Timeout JSONDecodeError"
    by (simp add: is_Timeout_def is_ConnectionError_def)
  have h3: "printer_state ?d = Some ''PRINTING''" by simp
  from get_printer_status_never_raises [of "Inl ReadTimeout" "Inl HTTPError"] h1
  have c1: "get_printer_status (Inl ReadTimeout) (Inl HTTPError) = Inr (state_only ''OFFLINE'')"
    by blast
  from get_printer_status_never_raises [of "Inl JSONDecodeError" "Inl HTTPError"] h2
  have c2: "get_printer_status (Inl JSONDecodeError) (Inl HTTPError) = Inr (state_only ''UNKNOWN'')"
    by blast
  from get_printer_status_never_raises [of "Inr ?d" "Inl ConnectionError"] h3
  have c3: "\<exists>st. get_printer_status (Inr ?d) (Inl ConnectionError) = Inr st \<and>
         state st = ''PRINTING'' \<and> job_data st = None"
    by blast
  from h1 c1 h2 c2 c3 show ?thesis by blast
qed

section \<open>The placeholder file name\<close>





section \<open>Durations on the push backend\<close>

lemma finish_reading:
  "get_bambu_status
     [''x1c'' \<mapsto> Inr \<lparr>get_state = Some ''GcodeState.FINISH'', get_time = Some 0,
                         subtask_name = Some ''a.3mf'', client_file_name = None\<rparr>]
     ''x1c'' =
   Inr \<lparr>state = ''IDLE'', raw_bambu_state = Some ''FINISH'', time_remaining = Some 0,
        time_printing = None, job_data = None\<rparr>"
  by code_simp

text \<open>
  C10. A status returned by \<open>get_bambu_status\<close> has no \<^verbatim>\<open>time_printing\<close>. So, for a
  printer read through it whose saved record, if any, has no \<^verbatim>\<open>time_printing\<close> (as
  is the case when the process starts), the record saved by the cycle has none
  either, and every message sent in the cycle takes its duration from the start
  instant recorded for the printer, or has no duration when none is recorded.
\<close>

theorem push_duration_source:
  "(get_bambu_status conns n = Inr st \<longrightarrow> time_printing st = None) \<and>
   (get_bambu_status conns (printer_name p) = Inr st \<and>
    (\<forall>r. previous_states b (printer_name p) = Some r \<longrightarrow> prev_time_printing r = None) \<longrightarrow>
      (\<forall>r. previous_states (snd (check_printer now b (printer_entry p st))) (printer_name p) = Some r \<longrightarrow>
           prev_time_printing r = None) \<and>
      (\<forall>e \<in> set (fst (check_printer now b (printer_entry p st))).
         event_duration e =
           (case print_start_times b (printer_name p) of
              None \<Rightarrow> None
            | Some t0 \<Rightarrow> Some (format_time (Some (elapsed_seconds t0 now)))))) \<and>
   (\<forall>r. previous_states empty_bot (printer_name p) = Some r \<longrightarrow> prev_time_printing r = None)"
proof -
  have A: "get_bambu_status conns n = Inr st \<longrightarrow> time_printing st = None"
    by (simp add: get_bambu_status_no_time)
  have B: "get_bambu_status conns (printer_name p) = Inr st \<and>
    (\<forall>r. previous_states b (printer_name p) = Some r \<longrightarrow> prev_time_printing r = None) \<longrightarrow>
      (\<forall>r. previous_states (snd (check_printer now b (printer_entry p st))) (printer_name p) = Some r \<longrightarrow>
           prev_time_printing r = None) \<and>
      (\<forall>e \<in> set (fst (check_printer now b (printer_entry p st))).
         event_duration e =
           (case print_start_times b (printer_name p) of
              None \<Rightarrow> None
            | Some t0 \<Rightarrow> Some (format_time (Some (elapsed_seconds t0 now)))))"
  proof
    assume a: "get_bambu_status conns (printer_name p) = Inr st \<and>
      (\<forall>r. previous_states b (printer_name p) = Some r \<longrightarrow> prev_time_printing r = None)"
    then have t: "time_printing st = None"
      using get_bambu_status_no_time by blast
    from a have inv: "\<forall>r. previous_states b (printer_name p) = Some r \<longrightarrow> prev_time_printing r = None"
      by (rule conjunct2)
    show "(\<forall>r. previous_states (snd (check_printer now b (printer_entry p st))) (printer_name p) = Some r \<longrightarrow>
           prev_time_printing r = None) \<and>
      (\<forall>e \<in> set (fst (check_printer now b (printer_entry p st))).
         event_duration e =
           (case print_start_times b (printer_name p) of
              None \<Rightarrow> None
            | Some t0 \<Rightarrow> Some (format_time (Some (elapsed_seconds t0 now)))))"
    proof (cases "state st = ''UNKNOWN''")
      case True
      with inv show ?thesis by (simp add: unknown_skipped)
    next
      case False
      show ?thesis
      proof (cases "\<exists>r. previous_states b (printer_name p) = Some r \<and> prev_state r = ''PRINTING''")
        case True
        then obtain r where prev: "previous_states b (printer_name p) = Some r"
          and printing: "prev_state r = ''PRINTING''" by blast
        from inv prev have "prev_time_printing r = None" by simp
        then show ?thesis
          unfolding printer_entry_def Let_def check_printer_was_printing [OF prev printing False]
          using t by (auto simp: duration_str_def truthy_int_def)
      next
        case False
        then have np: "\<forall>r. previous_states b (printer_name p) = Some r \<longrightarrow> prev_state r \<noteq> ''PRINTING''"
          by blast
        show ?thesis
          unfolding printer_entry_def Let_def check_printer_not_printing [OF np \<open>state st \<noteq> ''UNKNOWN''\<close>]
          using t by auto
      qed
    qed
  qed
  have C: "\<forall>r. previous_states empty_bot (printer_name p) = Some r \<longrightarrow> prev_time_printing r = None"
    by (simp add: empty_bot_def)
  from A B C show ?thesis by (intro conjI)
qed

theorem push_duration_source_witness:
  "get_bambu_status
     [''x1c'' \<mapsto> Inr \<lparr>get_state = Some ''GcodeState.FINISH'', get_time = Some 0,
                         subtask_name = Some ''a.3mf'', client_file_name = None\<rparr>]
     ''x1c'' =
   Inr \<lparr>state = ''IDLE'', raw_bambu_state = Some ''FINISH'', time_remaining = Some 0,
        time_printing = None, job_data = None\<rparr> \<and>
   previous_states
      \<lparr>previous_states = [''x1c'' \<mapsto> \<lparr>prev_state = ''PRINTING'', prev_file_name = Some ''a.3mf'',
                                       prev_username = None, prev_time_printing = None\<rparr>],
       print_start_times = [''x1c'' \<mapsto> 0]\<rparr> ''x1c'' =
     Some \<lparr>prev_state = ''PRINTING'', prev_file_name = Some ''a.3mf'',
           prev_username = None, prev_time_printing = None\<rparr> \<and>
   map event_kind (fst (check_printer 125000000
      \<lparr>previous_states = [''x1c'' \<mapsto> \<lparr>prev_state = ''PRINTING'', prev_file_name = Some ''a.3mf'',
                                       prev_username = None, prev_time_printing = None\<rparr>],
       print_start_times = [''x1c'' \<mapsto> 0]\<rparr>
      (printer_entry \<lparr>printer_name = ''x1c'', printer_type = Some ''bambu''\<rparr>
         \<lparr>state = ''IDLE'', raw_bambu_state = Some ''FINISH'', time_remaining = Some 0,
          time_printing = None, job_data = None\<rparr>))) = [Completed] \<and>
   map event_duration (fst (check_printer 125000000
      \<lparr>previous_states = [''x1c'' \<mapsto> \<lparr>prev_state = ''PRINTING'', prev_file_name = Some ''a.3mf'',
                                       prev_username = None, prev_time_printing = None\<rparr>],
       print_start_times = [''x1c'' \<mapsto> 0]\<rparr>
      (printer_entry \<lparr>printer_name = ''x1c'', printer_type = Some ''bambu''\<rparr>
         \<lparr>state = ''IDLE'', raw_bambu_state = Some ''FINISH'', time_remaining = Some 0,
          time_printing = None, job_data = None\<rparr>))) = [Some ''2m'']"
proof -
  let ?conns = "[''x1c'' \<mapsto> Inr \<lparr>get_state = Some ''GcodeState.FINISH'', get_time = Some 0,
                         subtask_name = Some ''a.3mf'', client_file_name = None\<rparr>]"
  let ?st = "\<lparr>state = ''IDLE'', raw_bambu_state = Some ''FINISH'', time_remaining = Some 0,
        time_printing = None, job_data = None\<rparr>"
  let ?p = "\<lparr>printer_name = ''x1c'', printer_type = Some ''bambu''\<rparr>"
  let ?r = "\<lparr>prev_state = ''PRINTING'', prev_file_name = Some ''a.3mf'',
             prev_username = None, prev_time_printing = None\<rparr>"
  let ?b = "\<lparr>previous_states = [''x1c'' \<mapsto> ?r], print_start_times = [''x1c'' \<mapsto> 0]\<rparr>"
  let ?evs = "fst (check_printer 125000000 ?b (printer_entry ?p ?st))"
  have h1: "get_bambu_status ?conns (printer_name ?p) = Inr ?st"
    using finish_reading by simp
  have h2: "\<forall>r. previous_states ?b (printer_name ?p) = Some r \<longrightarrow> prev_time_printing r = None"
    by simp
  have h3: "previous_states ?b ''x1c'' = Some ?r" by simp
  have k: "map event_kind ?evs = [Completed]"
    by (simp add: check_printer_def printer_entry_def Let_def)
  then obtain e where e: "?evs = [e]" by (cases ?evs) auto
  from push_duration_source [of ?conns "''x1c''" ?st ?p ?b 125000000] h1 h2
  have "\<forall>e \<in> set ?evs. event_duration e =
           (case print_start_times ?b (printer_name ?p) of
              None \<Rightarrow> None
            | Some t0 \<Rightarrow> Some (format_time (Some (elapsed_seconds t0 125000000))))"
    by blast
  with e have "map event_duration ?evs = [Some ''2m'']"
    by (simp add: format_125)
  with finish_reading h3 k show ?thesis by simp
qed

section \<open>Replaying a run\<close>











end
